theory Spec2Isabelle
  imports Complex_Main
begin

section \<open>Python values and primitives used by the throttle\<close>

text \<open>
  The development embeds \<^verbatim>\<open>src/backend/api/throttling.py\<close> (class CustomThrottle) and
  the function \<^verbatim>\<open>cache_result\<close> of \<^verbatim>\<open>src/backend/common/utils.py\<close>.

  Strings are \<^typ>\<open>string\<close> (characters 0..255, the Latin-1 range a WSGI header or a
  settings literal holds). A Python value that may be \<^verbatim>\<open>None\<close> is an option.
  Timestamps (\<^verbatim>\<open>time.time()\<close>) are idealised as \<^typ>\<open>real\<close>; integers are unbounded
  \<^typ>\<open>int\<close>, and the interpreter's configurable limit on the digit count of \<^verbatim>\<open>int(str)\<close>
  is not part of the model.
\<close>

type_synonym pystr = "string option"

datatype exn =
    ValidationError string
  | ValueError
  | AttributeError
  | TypeError
  | IndexError
  | KeyError
  | ConnectionError

text \<open>
  The dynamically typed values the attribute \<^verbatim>\<open>history\<close> and the local variable
  \<^verbatim>\<open>history\<close> take: a bool (what \<^verbatim>\<open>cache_result\<close> returns), a list of timestamps,
  or a dict (the \<^verbatim>\<open>{}\<close> of the constructor).
\<close>

datatype pyval =
    PBool bool
  | PList "real list"
  | PDict "(int \<times> real) list"

fun truthy :: "pyval \<Rightarrow> bool" where
  "truthy (PBool b) = b"
| "truthy (PList xs) = (xs \<noteq> [])"
| "truthy (PDict kvs) = (kvs \<noteq> [])"

text \<open>\<^verbatim>\<open>v[-1]\<close>: a bool is not subscriptable, a list gives its last element, a dict looks the key -1 up.\<close>

fun index_last :: "pyval \<Rightarrow> exn + real" where
  "index_last (PBool b) = Inl TypeError"
| "index_last (PList xs) = (if xs = [] then Inl IndexError else Inr (last xs))"
| "index_last (PDict kvs) = (case map_of kvs (-1) of None \<Rightarrow> Inl KeyError | Some v \<Rightarrow> Inr v)"

text \<open>\<^verbatim>\<open>v.pop()\<close> without argument.\<close>

fun py_pop :: "pyval \<Rightarrow> exn + pyval" where
  "py_pop (PBool b) = Inl AttributeError"
| "py_pop (PList xs) = (if xs = [] then Inl IndexError else Inr (PList (butlast xs)))"
| "py_pop (PDict kvs) = Inl TypeError"

fun py_len :: "pyval \<Rightarrow> exn + nat" where
  "py_len (PBool b) = Inl TypeError"
| "py_len (PList xs) = Inr (length xs)"
| "py_len (PDict kvs) = Inr (length kvs)"

text \<open>\<^verbatim>\<open>v.insert(0, x)\<close>.\<close>

fun py_insert0 :: "real \<Rightarrow> pyval \<Rightarrow> exn + pyval" where
  "py_insert0 x (PList xs) = Inr (PList (x # xs))"
| "py_insert0 x (PBool b) = Inl AttributeError"
| "py_insert0 x (PDict kvs) = Inl AttributeError"

subsection \<open>Strings: split, strip, int, str\<close>

text \<open>\<^verbatim>\<open>s.split(c)\<close> with a one-character separator: always at least one piece.\<close>

fun split_on :: "char \<Rightarrow> string \<Rightarrow> string list" where
  "split_on c [] = [[]]"
| "split_on c (x # xs) =
     (if x = c then [] # split_on c xs
      else (case split_on c xs of [] \<Rightarrow> [[x]] | p # ps \<Rightarrow> (x # p) # ps))"

text \<open>
  Whitespace of \<^verbatim>\<open>str.strip()\<close> (\<^verbatim>\<open>str.isspace\<close>) in the range 0..255:
  9..13, 28..32, 133 and 160. \<^verbatim>\<open>int(str)\<close> skips the same characters except 28..31.
\<close>

definition is_space :: "char \<Rightarrow> bool" where
  "is_space c = (let n = (of_char c :: nat) in
     (9 \<le> n \<and> n \<le> 13) \<or> (28 \<le> n \<and> n \<le> 32) \<or> n = 133 \<or> n = 160)"

definition is_int_space :: "char \<Rightarrow> bool" where
  "is_int_space c = (let n = (of_char c :: nat) in
     (9 \<le> n \<and> n \<le> 13) \<or> n = 32 \<or> n = 133 \<or> n = 160)"

definition strip_with :: "(char \<Rightarrow> bool) \<Rightarrow> string \<Rightarrow> string" where
  "strip_with p s = rev (dropWhile p (rev (dropWhile p s)))"

definition strip :: "string \<Rightarrow> string" where
  "strip s = strip_with is_space s"

definition is_digit :: "char \<Rightarrow> bool" where
  "is_digit c = (let n = (of_char c :: nat) in 48 \<le> n \<and> n \<le> 57)"

definition digit_val :: "char \<Rightarrow> nat" where
  "digit_val c = (of_char c :: nat) - 48"

text \<open>
  The digits of an integer literal after the first digit: more digits, each optionally
  preceded by a single underscore.
\<close>

fun py_digits :: "string \<Rightarrow> nat \<Rightarrow> nat option" where
  "py_digits [] acc = Some acc"
| "py_digits [c] acc = (if is_digit c then Some (10 * acc + digit_val c) else None)"
| "py_digits (c # d # cs) acc =
     (if is_digit c then py_digits (d # cs) (10 * acc + digit_val c)
      else if c = CHR ''_'' \<and> is_digit d then py_digits cs (10 * acc + digit_val d)
      else None)"

definition py_literal :: "string \<Rightarrow> nat option" where
  "py_literal s = (case s of [] \<Rightarrow> None
     | c # cs \<Rightarrow> if is_digit c then py_digits cs (digit_val c) else None)"

text \<open>\<^verbatim>\<open>int(s)\<close> for a string: \<open>None\<close> stands for ValueError.\<close>

definition py_int :: "string \<Rightarrow> int option" where
  "py_int s = (case strip_with is_int_space s of
       [] \<Rightarrow> None
     | c # cs \<Rightarrow>
         if c = CHR ''+'' then map_option int (py_literal cs)
         else if c = CHR ''-'' then map_option (\<lambda>n. - int n) (py_literal cs)
         else map_option int (py_literal (c # cs)))"

text \<open>\<^verbatim>\<open>str(n)\<close> of an integer: decimal digits, most significant first, a minus sign if negative.\<close>

definition digit_char :: "nat \<Rightarrow> char" where
  "digit_char d = char_of (48 + d)"

fun digits_of :: "nat \<Rightarrow> string" where
  "digits_of n = (if n < 10 then [digit_char n] else digits_of (n div 10) @ [digit_char (n mod 10)])"

declare digits_of.simps [simp del]

definition py_str :: "int \<Rightarrow> string" where
  "py_str i = (if i < 0 then CHR ''-'' # digits_of (nat (- i)) else digits_of (nat i))"

text \<open>How an f-string or \<^verbatim>\<open>str.format\<close> renders a value that may be None.\<close>

definition fmt :: "pystr \<Rightarrow> string" where
  "fmt v = (case v of None \<Rightarrow> ''None'' | Some s \<Rightarrow> s)"

section \<open>CustomThrottle.parse_rate\<close>

text \<open>
  \<^verbatim>\<open>num, period = rate.split('/')\<close> raises ValueError unless there are exactly two pieces,
  \<^verbatim>\<open>int(num)\<close> raises ValueError, and \<^verbatim>\<open>None.split\<close> raises AttributeError; the handler
  turns these into ValidationError("Invalid rate format: ..."). The ValidationError raised
  for an unknown period is not caught by that handler and leaves the function as it is.
\<close>

definition parse_rate :: "pystr \<Rightarrow> exn + (int \<times> int)" where
  "parse_rate rate =
     (case rate of
        None \<Rightarrow> Inl (ValidationError (''Invalid rate format: '' @ fmt rate))
      | Some r \<Rightarrow>
         (case split_on (CHR ''/'') r of
            [num, period] \<Rightarrow>
              (case py_int num of
                 None \<Rightarrow> Inl (ValidationError (''Invalid rate format: '' @ fmt rate))
               | Some n \<Rightarrow>
                   if period = ''second'' then Inr (n, 1)
                   else if period = ''minute'' then Inr (n, 60)
                   else if period = ''hour'' then Inr (n, 3600)
                   else if period = ''day'' then Inr (n, 86400)
                   else Inl (ValidationError (''Invalid rate period: '' @ period)))
          | _ \<Rightarrow> Inl (ValidationError (''Invalid rate format: '' @ fmt rate))))"

section \<open>Requests, rate table and throttle instance\<close>

text \<open>
  What the throttle reads from a request: \<^verbatim>\<open>request.user.is_authenticated\<close>,
  \<^verbatim>\<open>request.user.id\<close> (an integer primary key) and the two entries of
  \<^verbatim>\<open>request.META\<close>, absent (\<open>None\<close>) or a string.
\<close>

record request =
  is_authenticated :: bool
  user_id :: int
  HTTP_X_FORWARDED_FOR :: pystr
  REMOTE_ADDR :: pystr

text \<open>The module-level dict \<^verbatim>\<open>DEFAULT_THROTTLE_RATES\<close> with its keys 'user' and 'anon'.\<close>

record throttle_rates =
  rate_user :: pystr
  rate_anon :: pystr

definition DEFAULT_THROTTLE_RATES :: throttle_rates where
  "DEFAULT_THROTTLE_RATES = \<lparr> rate_user = Some ''100/hour'', rate_anon = Some ''10/hour'' \<rparr>"

text \<open>
  The attributes of a CustomThrottle instance. \<^verbatim>\<open>self.ident\<close> does not exist until
  \<^verbatim>\<open>allow_request\<close> assigns it (outer \<open>None\<close>). \<^verbatim>\<open>self.cache_format\<close> is the constant
  template 'throttle_{ident}_{rate}', applied by \<open>cache_format\<close> below.
\<close>

record throttle =
  rate :: pystr
  history :: pyval
  ident :: "pystr option"

definition CustomThrottle_init :: throttle where
  "CustomThrottle_init = \<lparr> rate = None, history = PDict [], ident = None \<rparr>"

definition cache_format :: "pystr \<Rightarrow> pystr \<Rightarrow> string" where
  "cache_format i r = ''throttle_'' @ fmt i @ ''_'' @ fmt r"

text \<open>Truthiness of a string or None: \<^verbatim>\<open>if x:\<close>.\<close>

definition str_truthy :: "pystr \<Rightarrow> bool" where
  "str_truthy v = (case v of None \<Rightarrow> False | Some s \<Rightarrow> s \<noteq> [])"

section \<open>Identity and rate selection\<close>

definition get_client_ip :: "request \<Rightarrow> exn + pystr" where
  "get_client_ip req =
     (let x_forwarded_for = HTTP_X_FORWARDED_FOR req in
      if str_truthy x_forwarded_for then
        (case split_on (CHR '','') (the x_forwarded_for) of
           [] \<Rightarrow> Inl IndexError
         | p # ps \<Rightarrow> Inr (Some (strip p)))
      else Inr (REMOTE_ADDR req))"

definition get_ident :: "request \<Rightarrow> exn + pystr" where
  "get_ident req =
     (if is_authenticated req then Inr (Some (py_str (user_id req)))
      else get_client_ip req)"

definition get_rate :: "throttle_rates \<Rightarrow> request \<Rightarrow> pystr" where
  "get_rate rates req = (if is_authenticated req then rate_user rates else rate_anon rates)"

section \<open>cache_result\<close>

definition CACHE_PREFIX :: string where
  "CACHE_PREFIX = ''podcast_automation:''"

definition CACHE_TTL_SECONDS :: int where
  "CACHE_TTL_SECONDS = 3600"

text \<open>
  The body of \<^verbatim>\<open>cache_result\<close> builds the prefixed key and the effective TTL, logs them and
  returns True; the call of a cache implementation is a comment. Any exception raised
  inside the try block is caught and turned into the return value False. The first
  argument stands for such an exception (\<open>None\<close>: the block runs through); only
  subclasses of Exception are considered.
\<close>

definition cache_result :: "exn option \<Rightarrow> string \<Rightarrow> pyval \<Rightarrow> int option \<Rightarrow> exn + pyval" where
  "cache_result fault key val ttl =
     (case fault of
        None \<Rightarrow> Inr (PBool True)
      | Some e \<Rightarrow> Inr (PBool False))"

text \<open>
  One invocation of \<^verbatim>\<open>cache_result\<close> as its debug line reports it: the prefixed key, the
  value handed over and the effective TTL.
\<close>

type_synonym cache_call = "string \<times> pyval \<times> int"

definition cache_call :: "string \<Rightarrow> pyval \<Rightarrow> int option \<Rightarrow> cache_call" where
  "cache_call key val ttl =
     (CACHE_PREFIX @ key, val, (case ttl of Some t \<Rightarrow> t | None \<Rightarrow> CACHE_TTL_SECONDS))"

section \<open>CustomThrottle.allow_request\<close>

text \<open>
  The loop \<^verbatim>\<open>while history and history[-1] <= now - period: history.pop()\<close>;
  \<open>bound\<close> is \<^verbatim>\<open>now - period\<close>.
\<close>

function prune_loop :: "pyval \<Rightarrow> real \<Rightarrow> exn + pyval" where
  "prune_loop h bound =
     (if \<not> truthy h then Inr h
      else (case index_last h of
              Inl e \<Rightarrow> Inl e
            | Inr t \<Rightarrow>
                if t \<le> bound then
                  (case py_pop h of Inl e \<Rightarrow> Inl e | Inr h' \<Rightarrow> prune_loop h' bound)
                else Inr h))"
  by pat_completeness auto
termination
  apply (relation "measure (\<lambda>(h, b). case h of PList xs \<Rightarrow> length xs | _ \<Rightarrow> 0)")
   apply simp
  subgoal for h bound t h'
    by (cases h) (auto split: if_splits)
  done

declare prune_loop.simps [simp del]

text \<open>
  The statements of the try block after the fetch (from "Clean old requests" to
  \<^verbatim>\<open>return True\<close>), as a function of the fetched value. The second component lists the
  \<^verbatim>\<open>cache_result\<close> invocations these statements make; \<open>wfault\<close> is the exception, if
  any, inside the write.
\<close>

definition check_window ::
  "exn option \<Rightarrow> string \<Rightarrow> pyval \<Rightarrow> real \<Rightarrow> int \<Rightarrow> int \<Rightarrow> (exn + bool) \<times> cache_call list" where
  "check_window wfault cache_key fetched now num_requests period =
     (case prune_loop fetched (now - real_of_int period) of
        Inl e \<Rightarrow> (Inl e, [])
      | Inr h \<Rightarrow>
         (case py_len h of
            Inl e \<Rightarrow> (Inl e, [])
          | Inr l \<Rightarrow>
             if int l \<ge> num_requests then (Inr False, [])
             else
               (case py_insert0 now h of
                  Inl e \<Rightarrow> (Inl e, [])
                | Inr h' \<Rightarrow>
                   (case cache_result wfault cache_key h' (Some period) of
                      Inl e \<Rightarrow> (Inl e, [cache_call cache_key h' (Some period)])
                    | Inr r \<Rightarrow> (Inr True, [cache_call cache_key h' (Some period)])))))"

text \<open>Exceptions inside the two \<^verbatim>\<open>cache_result\<close> calls of one \<^verbatim>\<open>allow_request\<close>.\<close>

record faults =
  fetch_fault :: "exn option"
  write_fault :: "exn option"

definition no_faults :: faults where
  "no_faults = \<lparr> fetch_fault = None, write_fault = None \<rparr>"

text \<open>The whole try block: the fetch \<^verbatim>\<open>cache_result(cache_key, [], period)\<close>, then the rest.\<close>

definition try_block ::
  "faults \<Rightarrow> string \<Rightarrow> real \<Rightarrow> int \<Rightarrow> int \<Rightarrow> (exn + bool) \<times> cache_call list" where
  "try_block env cache_key now num_requests period =
     (case cache_result (fetch_fault env) cache_key (PList []) (Some period) of
        Inl e \<Rightarrow> (Inl e, [cache_call cache_key (PList []) (Some period)])
      | Inr fetched \<Rightarrow>
         (case check_window (write_fault env) cache_key fetched now num_requests period of
            (r, calls) \<Rightarrow> (r, cache_call cache_key (PList []) (Some period) # calls)))"

text \<open>
  \<^verbatim>\<open>allow_request(self, request, view)\<close>: the result or the exception that leaves the
  method, the \<^verbatim>\<open>cache_result\<close> invocations made, and the instance afterwards.
  \<open>now\<close> is what \<^verbatim>\<open>self.timer()\<close> returns; \<open>view\<close> is not used by the method.
  \<^verbatim>\<open>parse_rate\<close> is called before the try block, so its exception is not handled here;
  \<^verbatim>\<open>except Exception\<close> turns every exception of the try block into True.
\<close>

definition allow_request ::
  "throttle_rates \<Rightarrow> faults \<Rightarrow> real \<Rightarrow> request \<Rightarrow> throttle
     \<Rightarrow> (exn + bool) \<times> cache_call list \<times> throttle" where
  "allow_request rates env now req self =
     (let self1 = self\<lparr>rate := get_rate rates req\<rparr> in
      if \<not> str_truthy (rate self1) then (Inr True, [], self1)
      else
        (case get_ident req of
           Inl e \<Rightarrow> (Inl e, [], self1)
         | Inr i \<Rightarrow>
            (let self2 = self1\<lparr>ident := Some i\<rparr> in
             case parse_rate (rate self2) of
               Inl e \<Rightarrow> (Inl e, [], self2)
             | Inr (num_requests, period) \<Rightarrow>
                (let cache_key = cache_format i (rate self2) in
                 case try_block env cache_key now num_requests period of
                   (Inl e, calls) \<Rightarrow> (Inr True, calls, self2)
                 | (Inr b, calls) \<Rightarrow> (Inr b, calls, self2)))))"

section \<open>CustomThrottle.wait\<close>

text \<open>
  The wait time is computed over the reals here; the code computes it in double precision,
  so for timestamps too large for exact double arithmetic the rounded value may differ.
  With an empty history no arithmetic takes place.
\<close>

definition wait :: "throttle \<Rightarrow> real \<Rightarrow> exn + real option" where
  "wait self now =
     (if \<not> truthy (history self) then Inr None
      else
        (case parse_rate (rate self) of
           Inl e \<Rightarrow> Inl e
         | Inr (num_requests, period) \<Rightarrow>
            (case index_last (history self) of
               Inl e \<Rightarrow> Inl e
             | Inr oldest_request \<Rightarrow>
                (let wait_time = oldest_request + real_of_int period - now in
                 Inr (if wait_time > 0 then Some wait_time else None)))))"

section \<open>Sequences of calls on one instance\<close>

type_synonym call = "throttle_rates \<times> faults \<times> real \<times> request"

fun run_calls :: "call list \<Rightarrow> throttle \<Rightarrow> (exn + bool) list \<times> throttle" where
  "run_calls [] self = ([], self)"
| "run_calls ((rates, env, now, req) # cs) self =
     (case allow_request rates env now req self of
        (r, calls, self') \<Rightarrow>
          (case run_calls cs self' of (rs, self'') \<Rightarrow> (r # rs, self'')))"

text \<open>One step of reading a decimal numeral from the left.\<close>

definition dec_step :: "nat \<Rightarrow> char \<Rightarrow> nat" where
  "dec_step a c = 10 * a + digit_val c"

section \<open>Lemmas about the string primitives\<close>

lemma split_on_nonempty: "split_on c s \<noteq> []"
  by (induction s) (auto split: list.splits)

lemma split_on_no_sep: "c \<notin> set s \<Longrightarrow> split_on c s = [s]"
  by (induction s) auto

lemma split_on_first_sep: "c \<notin> set a \<Longrightarrow> split_on c (a @ c # b) = a # split_on c b"
  by (induction a) auto

lemma hd_split_on: "hd (split_on c s) = takeWhile (\<lambda>x. x \<noteq> c) s"
  using split_on_nonempty [of c] by (induction s) (auto split: list.splits)

lemma digit_char_props: "d < 10 \<Longrightarrow> is_digit (digit_char d) \<and> digit_val (digit_char d) = d"
  by (simp add: is_digit_def digit_val_def digit_char_def)

lemma digits_of_nonempty: "digits_of n \<noteq> []"
  by (subst digits_of.simps) simp

lemma digits_of_all_digits: "c \<in> set (digits_of n) \<Longrightarrow> is_digit c"
proof (induction n arbitrary: c rule: digits_of.induct)
  case (1 n)
  show ?case
  proof (cases "n < 10")
    case True
    with "1.prems" show ?thesis
      by (subst (asm) digits_of.simps) (simp add: digit_char_props)
  next
    case False
    with "1.prems" have "c \<in> set (digits_of (n div 10)) \<or> c = digit_char (n mod 10)"
      by (subst (asm) digits_of.simps) auto
    then show ?thesis
      using "1.IH" [OF False] digit_char_props [of "n mod 10"] by auto
  qed
qed

lemma py_digits_all_digits:
  "\<forall>c \<in> set ds. is_digit c \<Longrightarrow> py_digits ds a = Some (foldl dec_step a ds)"
  by (induction ds a rule: py_digits.induct) (auto simp: dec_step_def)

lemma foldl_digits_of: "foldl dec_step 0 (digits_of n) = n"
proof (induction n rule: digits_of.induct)
  case (1 n)
  show ?case
  proof (cases "n < 10")
    case True
    then show ?thesis
      by (subst digits_of.simps) (simp add: dec_step_def digit_char_props)
  next
    case False
    have "foldl dec_step 0 (digits_of n) = dec_step (foldl dec_step 0 (digits_of (n div 10))) (digit_char (n mod 10))"
      using False by (subst digits_of.simps) simp
    also have "\<dots> = 10 * foldl dec_step 0 (digits_of (n div 10)) + n mod 10"
      by (simp add: dec_step_def digit_char_props)
    also have "\<dots> = 10 * (n div 10) + n mod 10"
      using "1.IH" [OF False] by simp
    finally show ?thesis by simp
  qed
qed

lemma py_literal_digits_of: "py_literal (digits_of n) = Some n"
proof -
  obtain c cs where cs: "digits_of n = c # cs"
    using digits_of_nonempty [of n] by (cases "digits_of n") auto
  have all: "\<forall>x \<in> set (c # cs). is_digit x"
    using digits_of_all_digits [of _ n] cs by auto
  have "py_literal (c # cs) = Some (foldl dec_step (digit_val c) cs)"
    using all by (simp add: py_literal_def py_digits_all_digits)
  also have "foldl dec_step (digit_val c) cs = foldl dec_step 0 (c # cs)"
    by (simp add: dec_step_def)
  finally show ?thesis
    using cs foldl_digits_of [of n] by simp
qed

lemma digit_not_int_space: "is_digit c \<Longrightarrow> \<not> is_int_space c"
  by (auto simp: is_digit_def is_int_space_def Let_def)

lemma strip_with_id: "s \<noteq> [] \<Longrightarrow> \<not> p (hd s) \<Longrightarrow> \<not> p (last s) \<Longrightarrow> strip_with p s = s"
proof -
  assume a: "s \<noteq> []" "\<not> p (hd s)" "\<not> p (last s)"
  have 1: "dropWhile p s = s" using a by (cases s) auto
  have 2: "dropWhile p (rev s) = rev s" using a by (cases "rev s") (auto simp: last_rev hd_rev)
  show ?thesis by (simp add: strip_with_def 1 2)
qed

lemma digits_of_ends: "is_digit (hd (digits_of n)) \<and> is_digit (last (digits_of n))"
  using digits_of_all_digits [of "hd (digits_of n)" n] digits_of_all_digits [of "last (digits_of n)" n]
    digits_of_nonempty [of n]
  by simp

lemma py_int_py_str: "py_int (py_str i) = Some i"
proof (cases "i < 0")
  case True
  let ?ds = "digits_of (nat (- i))"
  have "last (CHR ''-'' # ?ds) = last ?ds"
    using digits_of_nonempty by simp
  then have "\<not> is_int_space (last (CHR ''-'' # ?ds))"
    using digits_of_ends [of "nat (- i)"] digit_not_int_space by simp
  moreover have "\<not> is_int_space (CHR ''-'')"
    by (simp add: is_int_space_def)
  ultimately have "strip_with is_int_space (CHR ''-'' # ?ds) = CHR ''-'' # ?ds"
    by (intro strip_with_id) simp_all
  then show ?thesis
    using True by (simp add: py_int_def py_str_def py_literal_digits_of)
next
  case False
  let ?ds = "digits_of (nat i)"
  obtain c cs where cs: "?ds = c # cs"
    using digits_of_nonempty [of "nat i"] by (cases ?ds) auto
  have d: "is_digit c"
    using digits_of_ends [of "nat i"] cs by simp
  have "strip_with is_int_space ?ds = ?ds"
    using digits_of_ends [of "nat i"] digits_of_nonempty [of "nat i"] digit_not_int_space
    by (intro strip_with_id) auto
  moreover have "c \<noteq> CHR ''+''" "c \<noteq> CHR ''-''"
    using d by (auto simp: is_digit_def)
  ultimately show ?thesis
    using False cs py_literal_digits_of [of "nat i"] by (simp add: py_int_def py_str_def)
qed

lemma slash_not_in_py_str: "CHR ''/'' \<notin> set (py_str i)"
proof
  assume a: "CHR ''/'' \<in> set (py_str i)"
  then have "CHR ''/'' \<in> set (digits_of (nat (- i))) \<or> CHR ''/'' \<in> set (digits_of (nat i))"
    by (auto simp: py_str_def split: if_splits)
  then have "is_digit (CHR ''/'')"
    using digits_of_all_digits by blast
  then show False
    by (simp add: is_digit_def)
qed

lemma split_rate_string:
  "CHR ''/'' \<notin> set period \<Longrightarrow> split_on (CHR ''/'') (py_str i @ CHR ''/'' # period) = [py_str i, period]"
  by (simp add: split_on_first_sep slash_not_in_py_str split_on_no_sep)

section \<open>Lemmas about the admission path\<close>

lemma get_client_ip_total: "\<exists>i. get_client_ip req = Inr i"
  using split_on_nonempty [of "CHR '',''" "the (HTTP_X_FORWARDED_FOR req)"]
  by (auto simp: get_client_ip_def Let_def split: list.splits)

lemma get_ident_total: "\<exists>i. get_ident req = Inr i"
  using get_client_ip_total [of req] by (simp add: get_ident_def)

lemma cache_result_bool: "cache_result f k v t = Inr (PBool (f = None))"
  by (simp add: cache_result_def split: option.split)

lemma check_window_bool: "check_window wfl k (PBool b) now n p = (Inl TypeError, [])"
  by (cases b) (simp_all add: check_window_def prune_loop.simps)

lemma try_block_unfold:
  "try_block env k now n p = (Inl TypeError, [cache_call k (PList []) (Some p)])"
  by (simp add: try_block_def cache_result_bool check_window_bool)

lemma parse_rate_falsy: "\<not> str_truthy r \<Longrightarrow> \<exists>m. parse_rate r = Inl (ValidationError m)"
  by (auto simp: str_truthy_def parse_rate_def split: option.splits)

lemma allow_request_parsed:
  assumes "parse_rate (get_rate rates req) = Inr (n, p)"
  shows "fst (allow_request rates env now req self) = Inr True"
proof -
  have t: "str_truthy (get_rate rates req)"
    using assms parse_rate_falsy [of "get_rate rates req"] by auto
  obtain i where i: "get_ident req = Inr i"
    using get_ident_total by blast
  show ?thesis
    using assms t i by (simp add: allow_request_def Let_def try_block_unfold)
qed

lemma allow_request_history: "history (snd (snd (allow_request rates env now req self))) = history self"
  by (simp add: allow_request_def Let_def try_block_unfold split: sum.splits prod.splits)

lemma run_calls_history: "history (snd (run_calls cs self)) = history self"
proof (induction cs arbitrary: self)
  case Nil
  then show ?case by simp
next
  case (Cons c cs)
  obtain rates env now req where c: "c = (rates, env, now, req)"
    by (cases c) auto
  obtain r calls self' where a: "allow_request rates env now req self = (r, calls, self')"
    by (cases "allow_request rates env now req self") auto
  have "history self' = history self"
    using allow_request_history [of rates env now req self] a by simp
  then show ?case
    using Cons.IH [of self'] c a by (auto split: prod.splits)
qed

section \<open>Lemmas about trimming\<close>

lemma strip_with_decomp:
  "\<exists>a b. s = a @ strip_with p s @ b \<and> (\<forall>c \<in> set a. p c) \<and> (\<forall>c \<in> set b. p c)"
proof -
  let ?t = "dropWhile p s"
  have 1: "s = takeWhile p s @ ?t"
    by simp
  have "?t = rev (takeWhile p (rev ?t) @ dropWhile p (rev ?t))"
    by (simp only: takeWhile_dropWhile_id rev_rev_ident)
  then have 2: "?t = strip_with p s @ rev (takeWhile p (rev ?t))"
    by (simp only: rev_append strip_with_def)
  have 3: "\<forall>c \<in> set (takeWhile p s). p c" "\<forall>c \<in> set (rev (takeWhile p (rev ?t))). p c"
    by (auto dest: set_takeWhileD)
  from 1 2 have "s = takeWhile p s @ strip_with p s @ rev (takeWhile p (rev ?t))"
    by simp
  with 3 show ?thesis by blast
qed

lemma strip_with_ends:
  "strip_with p s \<noteq> [] \<Longrightarrow> \<not> p (hd (strip_with p s)) \<and> \<not> p (last (strip_with p s))"
proof -
  assume n: "strip_with p s \<noteq> []"
  let ?t = "dropWhile p s"
  let ?u = "dropWhile p (rev ?t)"
  have u: "?u \<noteq> []" using n by (simp add: strip_with_def)
  then have l: "\<not> p (hd ?u)" by (rule hd_dropWhile)
  then have a: "\<not> p (last (strip_with p s))"
    using u by (simp add: strip_with_def last_rev)
  have t: "?t \<noteq> []" using u by (cases ?t) simp_all
  then have ht: "\<not> p (hd ?t)" by (rule hd_dropWhile)
  obtain v where v: "rev ?t = v @ ?u"
    by (metis takeWhile_dropWhile_id)
  then have "?t = rev ?u @ rev v"
    by (metis rev_append rev_rev_ident)
  then have "hd ?t = hd (rev ?u)"
    using u by (metis hd_append2 rev_is_Nil_conv)
  then show ?thesis
    using a ht by (simp add: strip_with_def)
qed

text \<open>\<^verbatim>\<open>strip\<close> removes whitespace only, from both ends, and leaves none at either end.\<close>

lemma strip_trimmed:
  "(\<exists>a b. s = a @ strip s @ b \<and> (\<forall>c \<in> set a. is_space c) \<and> (\<forall>c \<in> set b. is_space c))
   \<and> (strip s \<noteq> [] \<longrightarrow> \<not> is_space (hd (strip s)) \<and> \<not> is_space (last (strip s)))"
  unfolding strip_def using strip_with_decomp [of s is_space] strip_with_ends [of is_space s]
  by blast

section \<open>Lemmas about the window and sequences of calls\<close>

lemma prune_loop_list:
  "prune_loop (PList ws) b = Inr (PList (rev (dropWhile (\<lambda>t. t \<le> b) (rev ws))))"
proof (induction ws rule: rev_induct)
  case Nil
  show ?case by (simp add: prune_loop.simps)
next
  case (snoc x xs)
  show ?case
  proof (cases "x \<le> b")
    case True
    then show ?thesis
      using snoc.IH by (subst prune_loop.simps) simp
  next
    case False
    then show ?thesis
      by (subst prune_loop.simps) simp
  qed
qed

lemma wait_empty_history: "history self = PDict [] \<Longrightarrow> wait self now = Inr None"
  by (simp add: wait_def)

lemma run_calls_replicate:
  assumes "parse_rate (get_rate rates req) = Inr (n, p)"
  shows "fst (run_calls (replicate k (rates, env, now, req)) self) = replicate k (Inr True)"
proof (induction k arbitrary: self)
  case 0
  show ?case by simp
next
  case (Suc k)
  obtain r calls self' where a: "allow_request rates env now req self = (r, calls, self')"
    by (cases "allow_request rates env now req self") auto
  have "r = Inr True"
    using allow_request_parsed [OF assms, of env now self] a by simp
  then show ?case
    using a Suc.IH [of self'] by (auto split: prod.splits)
qed

lemma default_rates_parse:
  "parse_rate (Some ''10/hour'') = Inr (10, 3600)" "parse_rate (Some ''100/hour'') = Inr (100, 3600)"
  by code_simp+



section \<open>Admission: C1, C2, C5, C6\<close>

text \<open>
  C1 (evaluation of the code). The claim: for a fresh identity and a rate with limit L,
  with the clock held constant, the first L calls of \<^verbatim>\<open>allow_request\<close> return true and
  call L+1 returns false. The code at the anonymous rate 10/hour, eleven calls from one
  address at time 0: all eleven calls return True, the eleventh included.
\<close>

theorem eleventh_request_admitted:
  "parse_rate (get_rate DEFAULT_THROTTLE_RATES
       \<lparr> is_authenticated = False, user_id = 0, HTTP_X_FORWARDED_FOR = None,
         REMOTE_ADDR = Some ''10.0.0.1'' \<rparr>) = Inr (10, 3600)
   \<and> fst (run_calls (replicate 11 (DEFAULT_THROTTLE_RATES, no_faults, 0,
       \<lparr> is_authenticated = False, user_id = 0, HTTP_X_FORWARDED_FOR = None,
         REMOTE_ADDR = Some ''10.0.0.1'' \<rparr>)) CustomThrottle_init) = replicate 11 (Inr True)"
proof -
  let ?r = "\<lparr> is_authenticated = False, user_id = 0, HTTP_X_FORWARDED_FOR = None,
         REMOTE_ADDR = Some ''10.0.0.1'' \<rparr>"
  have p: "parse_rate (get_rate DEFAULT_THROTTLE_RATES ?r) = Inr (10, 3600)"
    by (simp add: get_rate_def DEFAULT_THROTTLE_RATES_def default_rates_parse)
  show ?thesis
    using p run_calls_replicate [OF p] by simp
qed

text \<open>
  C2. Whenever the rate parses (so that the try block and its store accesses are reached)
  and an exception occurs inside the window fetch or inside the window write,
  \<^verbatim>\<open>allow_request\<close> returns True and no exception leaves it.
\<close>

theorem allow_request_fail_open:
  assumes "parse_rate (get_rate rates req) = Inr (n, p)"
    and "fetch_fault env \<noteq> None \<or> write_fault env \<noteq> None"
  shows "fst (allow_request rates env now req self) = Inr True"
  using assms(1) by (rule allow_request_parsed)

theorem allow_request_fail_open_witness:
  "parse_rate (get_rate DEFAULT_THROTTLE_RATES
       \<lparr> is_authenticated = True, user_id = 42, HTTP_X_FORWARDED_FOR = None,
         REMOTE_ADDR = Some ''10.0.0.1'' \<rparr>) = Inr (100, 3600)
   \<and> fst (allow_request DEFAULT_THROTTLE_RATES
        \<lparr> fetch_fault = Some ConnectionError, write_fault = None \<rparr> 0
        \<lparr> is_authenticated = True, user_id = 42, HTTP_X_FORWARDED_FOR = None,
          REMOTE_ADDR = Some ''10.0.0.1'' \<rparr> CustomThrottle_init) = Inr True
   \<and> fst (allow_request DEFAULT_THROTTLE_RATES
        \<lparr> fetch_fault = None, write_fault = Some ConnectionError \<rparr> 0
        \<lparr> is_authenticated = True, user_id = 42, HTTP_X_FORWARDED_FOR = None,
          REMOTE_ADDR = Some ''10.0.0.1'' \<rparr> CustomThrottle_init) = Inr True"
proof -
  let ?r = "\<lparr> is_authenticated = True, user_id = 42, HTTP_X_FORWARDED_FOR = None,
         REMOTE_ADDR = Some ''10.0.0.1'' \<rparr>"
  have p: "parse_rate (get_rate DEFAULT_THROTTLE_RATES ?r) = Inr (100, 3600)"
    by (simp add: get_rate_def DEFAULT_THROTTLE_RATES_def default_rates_parse)
  show ?thesis
    using p
      allow_request_fail_open [OF p, of "\<lparr> fetch_fault = Some ConnectionError, write_fault = None \<rparr>" 0 CustomThrottle_init]
      allow_request_fail_open [OF p, of "\<lparr> fetch_fault = None, write_fault = Some ConnectionError \<rparr>" 0 CustomThrottle_init]
    by simp
qed

text \<open>
  C5 as stated fails: the empty string is a malformed rate (\<^verbatim>\<open>parse_rate\<close> raises on it),
  yet \<^verbatim>\<open>allow_request\<close> treats it as "no rate defined" and returns True without parsing.
\<close>

theorem empty_rate_is_admitted:
  "parse_rate (Some '''') = Inl (ValidationError ''Invalid rate format: '')
   \<and> fst (allow_request \<lparr> rate_user = Some ''100/hour'', rate_anon = Some '''' \<rparr> no_faults 0
        \<lparr> is_authenticated = False, user_id = 0, HTTP_X_FORWARDED_FOR = None,
          REMOTE_ADDR = Some ''10.0.0.1'' \<rparr> CustomThrottle_init) = Inr True"
  by (simp add: parse_rate_def fmt_def allow_request_def get_rate_def str_truthy_def Let_def)

text \<open>
  C5 (amended). For every request whose configured rate string is non-empty and
  malformed, \<^verbatim>\<open>allow_request\<close> leaves with the ValidationError of \<^verbatim>\<open>parse_rate\<close>,
  before any store access and whatever the store would do.
\<close>

theorem invalid_rate_propagates:
  assumes "str_truthy (get_rate rates req)" and "parse_rate (get_rate rates req) = Inl e"
  shows "fst (allow_request rates env now req self) = Inl e \<and> fst (snd (allow_request rates env now req self)) = []"
proof -
  obtain i where i: "get_ident req = Inr i"
    using get_ident_total by blast
  show ?thesis
    using assms i by (simp add: allow_request_def Let_def)
qed

theorem invalid_rate_propagates_witness:
  "str_truthy (Some ''ten/hour'')
   \<and> parse_rate (Some ''ten/hour'') = Inl (ValidationError ''Invalid rate format: ten/hour'')
   \<and> fst (allow_request \<lparr> rate_user = Some ''100/hour'', rate_anon = Some ''ten/hour'' \<rparr>
        \<lparr> fetch_fault = Some ConnectionError, write_fault = None \<rparr> 0
        \<lparr> is_authenticated = False, user_id = 0, HTTP_X_FORWARDED_FOR = None,
          REMOTE_ADDR = Some ''10.0.0.1'' \<rparr> CustomThrottle_init)
      = Inl (ValidationError ''Invalid rate format: ten/hour'')"
proof -
  let ?rates = "\<lparr> rate_user = Some ''100/hour'', rate_anon = Some ''ten/hour'' \<rparr>"
  let ?r = "\<lparr> is_authenticated = False, user_id = 0, HTTP_X_FORWARDED_FOR = None,
          REMOTE_ADDR = Some ''10.0.0.1'' \<rparr>"
  have g: "get_rate ?rates ?r = Some ''ten/hour''"
    by (simp add: get_rate_def)
  have t: "str_truthy (get_rate ?rates ?r)"
    by (simp add: g str_truthy_def)
  have p: "parse_rate (get_rate ?rates ?r) = Inl (ValidationError ''Invalid rate format: ten/hour'')"
    unfolding g by code_simp
  show ?thesis
    using t p invalid_rate_propagates [OF t p, of "\<lparr> fetch_fault = Some ConnectionError, write_fault = None \<rparr>" 0 CustomThrottle_init]
    by (simp add: g)
qed


section \<open>The rate parser: C3, C4\<close>

text \<open>
  C3. For each of the period names second, minute, hour and day and every positive
  integer N, \<^verbatim>\<open>parse_rate\<close> applied to the decimal rendering of N, a slash and the
  period name returns N paired with 1, 60, 3600 and 86400 seconds respectively.
\<close>

theorem parse_rate_table:
  assumes "0 < N"
  shows "parse_rate (Some (py_str N @ ''/second'')) = Inr (N, 1)
       \<and> parse_rate (Some (py_str N @ ''/minute'')) = Inr (N, 60)
       \<and> parse_rate (Some (py_str N @ ''/hour'')) = Inr (N, 3600)
       \<and> parse_rate (Some (py_str N @ ''/day'')) = Inr (N, 86400)"
  by (simp add: parse_rate_def split_rate_string py_int_py_str)

theorem parse_rate_table_witness:
  "(0::int) < 100 \<and> py_str 100 = ''100''
   \<and> parse_rate (Some ''100/second'') = Inr (100, 1)
   \<and> parse_rate (Some ''100/minute'') = Inr (100, 60)
   \<and> parse_rate (Some ''100/hour'') = Inr (100, 3600)
   \<and> parse_rate (Some ''100/day'') = Inr (100, 86400)"
proof -
  have s: "py_str 100 = ''100''"
    by code_simp
  show ?thesis
    using parse_rate_table [of 100] by (simp add: s)
qed

text \<open>
  C4 as stated fails: a zero or negative count with a known period is not rejected.
\<close>

theorem parse_rate_accepts_nonpositive:
  "parse_rate (Some ''0/hour'') = Inr (0, 3600) \<and> parse_rate (Some ''-5/day'') = Inr (- 5, 86400)"
  by code_simp

text \<open>
  C4 (amended). \<^verbatim>\<open>parse_rate\<close> raises ValidationError exactly when the string does not
  split at the slash into two tokens, or \<^verbatim>\<open>int()\<close> rejects the first token, or the second
  token is not one of second, minute, hour, day. Otherwise it returns the value of
  \<^verbatim>\<open>int()\<close> on the first token, zero and negative values included, paired with 1, 60,
  3600 or 86400 for second, minute, hour or day.
\<close>

theorem parse_rate_result:
  "((\<exists>msg. parse_rate (Some r) = Inl (ValidationError msg))
     \<longleftrightarrow> \<not> (\<exists>num period n. split_on (CHR ''/'') r = [num, period] \<and> py_int num = Some n
            \<and> period \<in> {''second'', ''minute'', ''hour'', ''day''}))
   \<and> (\<forall>num period n. split_on (CHR ''/'') r = [num, period] \<and> py_int num = Some n \<longrightarrow>
         (period = ''second'' \<longrightarrow> parse_rate (Some r) = Inr (n, 1))
       \<and> (period = ''minute'' \<longrightarrow> parse_rate (Some r) = Inr (n, 60))
       \<and> (period = ''hour'' \<longrightarrow> parse_rate (Some r) = Inr (n, 3600))
       \<and> (period = ''day'' \<longrightarrow> parse_rate (Some r) = Inr (n, 86400)))"
  by (auto simp: parse_rate_def split: list.splits option.splits)

theorem parse_rate_result_witness:
  "(\<exists>msg. parse_rate (Some ''10/hour/x'') = Inl (ValidationError msg))
   \<and> (\<exists>msg. parse_rate (Some ''ten/hour'') = Inl (ValidationError msg))
   \<and> (\<exists>msg. parse_rate (Some ''10/week'') = Inl (ValidationError msg))
   \<and> \<not> (\<exists>msg. parse_rate (Some ''-5/day'') = Inl (ValidationError msg))
   \<and> parse_rate (Some ''-5/day'') = Inr (- 5, 86400)
   \<and> parse_rate (Some ''0/second'') = Inr (0, 1)
   \<and> parse_rate (Some '' +1_0 /minute'') = Inr (10, 60)
   \<and> parse_rate (Some ''007/hour'') = Inr (7, 3600)"
proof -
  have 1: "split_on (CHR ''/'') ''10/hour/x'' = [''10'', ''hour'', ''x'']"
    by code_simp
  have 2: "split_on (CHR ''/'') ''ten/hour'' = [''ten'', ''hour'']" "py_int ''ten'' = None"
    by code_simp+
  have 3: "split_on (CHR ''/'') ''10/week'' = [''10'', ''week'']"
    by code_simp
  have 4: "split_on (CHR ''/'') ''-5/day'' = [''-5'', ''day'']" "py_int ''-5'' = Some (- 5)"
    by code_simp+
  have 5: "split_on (CHR ''/'') ''0/second'' = [''0'', ''second'']" "py_int ''0'' = Some 0"
    by code_simp+
  have 6: "split_on (CHR ''/'') '' +1_0 /minute'' = ['' +1_0 '', ''minute'']"
    "py_int '' +1_0 '' = Some 10"
    by code_simp+
  have 7: "split_on (CHR ''/'') ''007/hour'' = [''007'', ''hour'']" "py_int ''007'' = Some 7"
    by code_simp+
  show ?thesis
    using parse_rate_result [of "''10/hour/x''"] parse_rate_result [of "''ten/hour''"]
      parse_rate_result [of "''10/week''"] parse_rate_result [of "''-5/day''"]
      parse_rate_result [of "''0/second''"] parse_rate_result [of "'' +1_0 /minute''"]
      parse_rate_result [of "''007/hour''"]
    by (simp add: 1 2 3 4 5 6 7)
qed

section \<open>The wait hint and the instance history: C7, C10\<close>

text \<open>
  C7 (evaluation of the code). The claim: after an \<^verbatim>\<open>allow_request\<close> that observed a
  non-empty window, \<^verbatim>\<open>wait\<close> returns the oldest timestamp plus the period minus now when
  that is positive. The code at the user rate 100/hour, clock constant at 0: after 102
  calls for one user on one instance, where the expected value is 3600, \<^verbatim>\<open>wait\<close> returns
  None, because the history attribute still is the empty dict.
\<close>

theorem wait_none_after_throttling:
  "wait (snd (run_calls (replicate 102 (DEFAULT_THROTTLE_RATES, no_faults, 0,
        \<lparr> is_authenticated = True, user_id = 42, HTTP_X_FORWARDED_FOR = None,
          REMOTE_ADDR = Some ''10.0.0.1'' \<rparr>)) CustomThrottle_init)) 0 = Inr None"
  by (rule wait_empty_history) (simp only: run_calls_history, simp add: CustomThrottle_init_def)

text \<open>
  C10. The history attribute is the empty dict of the constructor, \<^verbatim>\<open>allow_request\<close>
  never changes it, and so after any sequence of \<^verbatim>\<open>allow_request\<close> calls \<^verbatim>\<open>wait\<close> returns None.
\<close>

theorem history_never_written:
  "history CustomThrottle_init = PDict []
   \<and> history (snd (snd (allow_request rates env now req self))) = history self
   \<and> history (snd (run_calls cs CustomThrottle_init)) = PDict []
   \<and> wait (snd (run_calls cs CustomThrottle_init)) t = Inr None"
proof -
  have i: "history CustomThrottle_init = PDict []"
    by (simp add: CustomThrottle_init_def)
  have h: "history (snd (run_calls cs CustomThrottle_init)) = PDict []"
    using run_calls_history [of cs CustomThrottle_init] i by simp
  show ?thesis
    using i h allow_request_history wait_empty_history by simp
qed

section \<open>Identity resolution: C8\<close>

text \<open>
  C8 as stated fails: with neither header the identity is None, not a string; and a
  forwarded-for header that is present but empty is skipped in favour of the remote address.
\<close>

theorem unresolvable_identity_is_none:
  "get_ident \<lparr> is_authenticated = False, user_id = 0, HTTP_X_FORWARDED_FOR = None,
       REMOTE_ADDR = None \<rparr> = Inr None
   \<and> get_ident \<lparr> is_authenticated = False, user_id = 0, HTTP_X_FORWARDED_FOR = Some '''',
       REMOTE_ADDR = Some ''10.0.0.1'' \<rparr> = Inr (Some ''10.0.0.1'')"
  by (simp add: get_ident_def get_client_ip_def str_truthy_def)

text \<open>
  C8 (amended). \<^verbatim>\<open>get_ident\<close> never raises. For an unauthenticated request it returns
  the first comma-separated entry of the forwarded-for header, stripped, when that header
  is present and non-empty; otherwise it returns the remote address as it is, which is
  None when that entry is absent.
\<close>

theorem get_ident_resolution:
  "(\<exists>v. get_ident req = Inr v)
   \<and> (\<not> is_authenticated req \<longrightarrow>
        (\<forall>x. HTTP_X_FORWARDED_FOR req = Some x \<and> x \<noteq> [] \<longrightarrow>
           get_ident req = Inr (Some (strip (takeWhile (\<lambda>c. c \<noteq> CHR '','') x))))
      \<and> (HTTP_X_FORWARDED_FOR req = None \<or> HTTP_X_FORWARDED_FOR req = Some [] \<longrightarrow>
           get_ident req = Inr (REMOTE_ADDR req)))"
proof -
  have first: "split_on (CHR '','') x = takeWhile (\<lambda>c. c \<noteq> CHR '','') x # tl (split_on (CHR '','') x)" for x
    using hd_split_on [of "CHR '',''" x] split_on_nonempty [of "CHR '',''" x]
    by (cases "split_on (CHR '','') x") auto
  have "get_ident req = Inr (Some (strip (takeWhile (\<lambda>c. c \<noteq> CHR '','') x)))"
    if "\<not> is_authenticated req" "HTTP_X_FORWARDED_FOR req = Some x" "x \<noteq> []" for x
    using that by (subst get_ident_def, simp add: get_client_ip_def str_truthy_def, subst first, simp)
  moreover have "get_ident req = Inr (REMOTE_ADDR req)"
    if "\<not> is_authenticated req" "HTTP_X_FORWARDED_FOR req = None \<or> HTTP_X_FORWARDED_FOR req = Some []"
    using that by (auto simp: get_ident_def get_client_ip_def str_truthy_def)
  ultimately show ?thesis
    using get_ident_total [of req] by blast
qed

theorem get_ident_resolution_witness:
  "get_ident \<lparr> is_authenticated = False, user_id = 0,
       HTTP_X_FORWARDED_FOR = Some '' 203.0.113.7 , 10.0.0.2'', REMOTE_ADDR = Some ''10.0.0.1'' \<rparr>
     = Inr (Some ''203.0.113.7'')
   \<and> get_ident \<lparr> is_authenticated = False, user_id = 0, HTTP_X_FORWARDED_FOR = None,
       REMOTE_ADDR = Some ''10.0.0.1'' \<rparr> = Inr (Some ''10.0.0.1'')"
proof -
  let ?a = "\<lparr> is_authenticated = False, user_id = 0,
       HTTP_X_FORWARDED_FOR = Some '' 203.0.113.7 , 10.0.0.2'', REMOTE_ADDR = Some ''10.0.0.1'' \<rparr>"
  let ?b = "\<lparr> is_authenticated = False, user_id = 0, HTTP_X_FORWARDED_FOR = None,
       REMOTE_ADDR = Some ''10.0.0.1'' \<rparr>"
  have s: "strip (takeWhile (\<lambda>c. c \<noteq> CHR '','') '' 203.0.113.7 , 10.0.0.2'') = ''203.0.113.7''"
    by code_simp
  show ?thesis
    using get_ident_resolution [of ?a] get_ident_resolution [of ?b] s by simp
qed

section \<open>The cache helper: C9\<close>

text \<open>
  C9. \<^verbatim>\<open>cache_result\<close> never raises: it returns True when its body runs through and False
  when an exception occurs inside; its result is always a bool, never a list of
  timestamps, so the window fetch of the throttle yields True.
\<close>

theorem cache_result_returns_bool:
  "cache_result None key val ttl = Inr (PBool True)
   \<and> cache_result (Some e) key val ttl = Inr (PBool False)
   \<and> (\<exists>b. cache_result fault key val ttl = Inr (PBool b))
   \<and> cache_result fault key val ttl \<noteq> Inr (PList ws)
   \<and> cache_result None cache_key (PList []) (Some period) = Inr (PBool True)"
  by (auto simp: cache_result_def split: option.split)

end
